theory Spec2Isabelle
  imports Complex_Main
begin

section \<open>Numbers\<close>

text \<open>
  The program is JavaScript: every number is a double. Finite doubles are modelled as
  reals (rounding, overflow and the infinities are not modelled); \<open>NaN\<close> is kept apart,
  because the recorder copies and compares coordinates that may be \<open>NaN\<close>. Arithmetic
  with \<open>NaN\<close> gives \<open>NaN\<close>, every comparison with \<open>NaN\<close> is false. Times (the host's
  clock) are finite.
\<close>

datatype jsnum = NaN | Num real

fun js_sub :: "jsnum \<Rightarrow> jsnum \<Rightarrow> jsnum" where
  "js_sub (Num a) (Num b) = Num (a - b)"
| "js_sub _ _ = NaN"

fun js_add :: "jsnum \<Rightarrow> jsnum \<Rightarrow> jsnum" where
  "js_add (Num a) (Num b) = Num (a + b)"
| "js_add _ _ = NaN"

fun js_mul :: "jsnum \<Rightarrow> jsnum \<Rightarrow> jsnum" where
  "js_mul (Num a) (Num b) = Num (a * b)"
| "js_mul _ _ = NaN"

fun js_gt :: "jsnum \<Rightarrow> jsnum \<Rightarrow> bool" where
  "js_gt (Num a) (Num b) = (a > b)"
| "js_gt _ _ = False"

section \<open>Shading-language builtins used by \<open>positionNode\<close>\<close>

text \<open>
  The vector operations of \<open>three/tsl\<close> on \<open>vec2\<close> (\<open>sub\<close>, \<open>mul\<close> and \<open>div\<close> by a scalar,
  \<open>length\<close>) and \<open>clamp\<close>, with their usual meaning.
\<close>

type_synonym vec2 = "real \<times> real"

definition vec2_sub :: "vec2 \<Rightarrow> vec2 \<Rightarrow> vec2" where
  "vec2_sub a b = (fst a - fst b, snd a - snd b)"

definition vec2_mul :: "vec2 \<Rightarrow> real \<Rightarrow> vec2" where
  "vec2_mul v c = (fst v * c, snd v * c)"

definition vec2_div :: "vec2 \<Rightarrow> real \<Rightarrow> vec2" where
  "vec2_div v c = (fst v / c, snd v / c)"

definition vec2_length :: "vec2 \<Rightarrow> real" where
  "vec2_length v = sqrt (fst v * fst v + snd v * snd v)"

definition clamp :: "real \<Rightarrow> real \<Rightarrow> real \<Rightarrow> real" where
  "clamp v lo hi = min (max v lo) hi"

text \<open>
  Modelled from the spec: \<open>smoothstep\<close> is imported from \<open>three/tsl\<close> and has no
  definition in the repository. It is the Hermite interpolation of the shading languages,
  \<open>t * t * (3 - 2 * t)\<close> with \<open>t = clamp ((x - low) / (high - low)) 0 1\<close>; with the edges
  reversed, as the source calls it, this is what the specification describes: 1.0 at or
  below the second edge, a smooth decay in between, 0.0 at or beyond the first edge. The
  source calls it with edges that differ (4 and 3; the radius uniforms 1 and 0.8, and 0);
  for equal edges the quotient has no meaning on the GPU, and is 0 here.
\<close>

definition smoothstep :: "real \<Rightarrow> real \<Rightarrow> real \<Rightarrow> real" where
  "smoothstep low high v =
     (let t = clamp ((v - low) / (high - low)) 0 1 in t * t * (3 - 2 * t))"

text \<open>
  Modelled from the spec: \<open>step\<close> is imported from \<open>three/tsl\<close> too; \<open>step edge v\<close> is 0.0
  when \<open>v < edge\<close> and 1.0 otherwise, which makes \<open>tipness\<close> 1 at the tip vertex of a blade
  and 0 at its two base vertices.
\<close>

definition step :: "real \<Rightarrow> real \<Rightarrow> real" where
  "step edge v = (if v < edge then 0 else 1)"

section \<open>Data model (\<open>Grass\<close>, src/environment/grass.js)\<close>

text \<open>A position object \<open>{ x, z }\<close> and a footprint entry \<open>{ x, z, t }\<close>.\<close>

record pos =
  pos_x :: jsnum
  pos_z :: jsnum

record entry =
  entry_x :: jsnum
  entry_z :: jsnum
  entry_t :: real

text \<open>
  The fields of a \<open>Grass\<close> object that \<open>setMaterial\<close> creates and \<open>update\<close> reads or
  writes. \<open>trailPosNode\<close> and \<open>trailAgesNode\<close> are the \<open>array\<close>s of the two uniform
  nodes, with their \<open>needsUpdate\<close> flags; \<open>cubeLastPos\<close> is \<open>None\<close> while the property
  \<open>_cubeLastPos\<close> is undefined.
\<close>

record grass =
  TRAIL_SIZE :: nat
  PLAYER_SLOTS :: nat
  CUBE_SLOTS :: nat
  HOLD_TIME :: real
  FADE_TIME :: real
  playerTrail :: "entry list"
  cubeTrail :: "entry list"
  lastSampleTime :: real
  lastCubeSampleTime :: real
  trailPosNode :: "jsnum list"
  trailAgesNode :: "real list"
  trailPosNode_needsUpdate :: bool
  trailAgesNode_needsUpdate :: bool
  playerRadius :: real
  playerStrength :: real
  CUBE_COUNT :: nat
  cubePosNode :: "real list"
  cubeRadius :: real
  cubeStrength :: real
  cubeLastPos :: "pos list option"
  timeNode :: real

text \<open>\<open>setMaterial\<close>: the state part of the constructor; \<open>isMobile\<close> is read from the browser.\<close>

definition setMaterial :: "bool \<Rightarrow> grass" where
  "setMaterial isMobile =
     \<lparr> TRAIL_SIZE = (if isMobile then 40 else 80),
       PLAYER_SLOTS = (if isMobile then 20 else 40),
       CUBE_SLOTS = (if isMobile then 20 else 40),
       HOLD_TIME = 3.0,
       FADE_TIME = 1.0,
       playerTrail = [],
       cubeTrail = [],
       lastSampleTime = 0,
       lastCubeSampleTime = 0,
       trailPosNode = replicate ((if isMobile then 40 else 80) * 2) (Num 99999),
       trailAgesNode = replicate (if isMobile then 40 else 80) 9999,
       trailPosNode_needsUpdate = False,
       trailAgesNode_needsUpdate = False,
       playerRadius = 1,
       playerStrength = 1.2,
       CUBE_COUNT = 32,
       cubePosNode = replicate (32 * 2) 99999,
       cubeRadius = 0.8,
       cubeStrength = 1.0,
       cubeLastPos = None,
       timeNode = 0.0 \<rparr>"

section \<open>The recorder and the packer (\<open>Grass.update\<close>)\<close>

text \<open>
  \<open>update\<close> either returns or throws; what it has written to the object before a throw
  stays written, so the outcome comes with the state.
\<close>

datatype error = TypeError

datatype outcome = Returned | Threw error

text \<open>\<open>Array.prototype.slice(-n)\<close>: the last \<open>n\<close> elements; \<open>slice(-0)\<close> is \<open>slice(0)\<close>.\<close>

definition slice_last :: "nat \<Rightarrow> 'a list \<Rightarrow> 'a list" where
  "slice_last n xs = (if n = 0 then xs else drop (length xs - n) xs)"

text \<open>
  The pruning both trails get: \<open>filter(e => (time - e.t) < totalTime + 0.2)\<close>, then
  \<open>slice(-slots)\<close> when more than \<open>slots\<close> entries are left.
\<close>

definition prune :: "real \<Rightarrow> real \<Rightarrow> nat \<Rightarrow> entry list \<Rightarrow> entry list" where
  "prune time totalTime slots trail =
     (let kept = filter (\<lambda>e. time - entry_t e < totalTime + 0.2) trail
      in if length kept > slots then slice_last slots kept else kept)"

text \<open>Player footsteps (only when grounded).\<close>

definition record_player :: "real \<Rightarrow> pos \<Rightarrow> bool \<Rightarrow> grass \<Rightarrow> grass" where
  "record_player time playerPos onGround g =
     (let SAMPLE_INTERVAL = 0.1; totalTime = HOLD_TIME g + FADE_TIME g
      in if onGround \<and> time - lastSampleTime g > SAMPLE_INTERVAL then
           g\<lparr> lastSampleTime := time,
              playerTrail := prune time totalTime (PLAYER_SLOTS g)
                (playerTrail g @
                 [\<lparr> entry_x = pos_x playerPos, entry_z = pos_z playerPos, entry_t = time \<rparr>]) \<rparr>
         else g)"

text \<open>
  The loop \<open>for (let i = 0; i < cubePositions.length; i++)\<close>, run on the cube positions
  from index \<open>i\<close> on. \<open>this._cubeLastPos[i]\<close> is undefined when \<open>i\<close> is not an index of
  the remembered list, and reading \<open>last.x\<close> then throws a TypeError.
\<close>

fun cube_loop ::
  "real \<Rightarrow> pos list \<Rightarrow> nat \<Rightarrow> entry list \<Rightarrow> pos list \<Rightarrow> outcome \<times> entry list \<times> pos list" where
  "cube_loop time [] i trail lastPos = (Returned, trail, lastPos)"
| "cube_loop time (cube # rest) i trail lastPos =
     (if i < length lastPos then
        (let last = lastPos ! i;
             dx = js_sub (pos_x cube) (pos_x last);
             dz = js_sub (pos_z cube) (pos_z last)
         in if js_gt (js_add (js_mul dx dx) (js_mul dz dz)) (Num 0.09) then
              cube_loop time rest (i + 1)
                (trail @ [\<lparr> entry_x = pos_x last, entry_z = pos_z last, entry_t = time \<rparr>])
                (lastPos[i := \<lparr> pos_x = pos_x cube, pos_z = pos_z cube \<rparr>])
            else cube_loop time rest (i + 1) trail lastPos)
      else (Threw TypeError, trail, lastPos))"

text \<open>Cube footsteps: the block \<open>if (cubePositions) { ... }\<close>.\<close>

definition record_cubes :: "real \<Rightarrow> pos list option \<Rightarrow> grass \<Rightarrow> outcome \<times> grass" where
  "record_cubes time cubePositions g =
     (case cubePositions of
        None \<Rightarrow> (Returned, g)
      | Some cubes \<Rightarrow>
          (let totalTime = HOLD_TIME g + FADE_TIME g;
               lastPos = (case cubeLastPos g of
                            None \<Rightarrow> map (\<lambda>c. \<lparr> pos_x = pos_x c, pos_z = pos_z c \<rparr>) cubes
                          | Some remembered \<Rightarrow> remembered)
           in case cube_loop time cubes 0 (cubeTrail g) lastPos of
                (Threw e, trail, lastPos') \<Rightarrow>
                  (Threw e, g\<lparr> cubeTrail := trail, cubeLastPos := Some lastPos' \<rparr>)
              | (Returned, trail, lastPos') \<Rightarrow>
                  (Returned, g\<lparr> cubeTrail := prune time totalTime (CUBE_SLOTS g) trail,
                                cubeLastPos := Some lastPos' \<rparr>)))"

text \<open>
  The two upload loops \<open>for (let i = 0; i < trail.length && gpuSlot < TRAIL_SIZE; i++,
  gpuSlot++)\<close>, run on the entries still to write; the result is the cursor \<open>gpuSlot\<close> and
  the two arrays. Every index written is below the arrays' lengths in each state that
  \<open>setMaterial\<close> and \<open>update\<close> build.
\<close>

fun write_trail ::
  "real \<Rightarrow> nat \<Rightarrow> entry list \<Rightarrow> nat \<Rightarrow> jsnum list \<Rightarrow> real list \<Rightarrow> nat \<times> jsnum list \<times> real list" where
  "write_trail time trailSize [] gpuSlot posArr ageArr = (gpuSlot, posArr, ageArr)"
| "write_trail time trailSize (e # rest) gpuSlot posArr ageArr =
     (if gpuSlot < trailSize then
        write_trail time trailSize rest (gpuSlot + 1)
          (posArr[gpuSlot * 2 := entry_x e, gpuSlot * 2 + 1 := entry_z e])
          (ageArr[gpuSlot := time - entry_t e])
      else (gpuSlot, posArr, ageArr))"

text \<open>The third loop, \<open>for (; gpuSlot < this.TRAIL_SIZE; gpuSlot++)\<close>.\<close>

definition fill_unused :: "nat \<Rightarrow> nat \<Rightarrow> jsnum list \<Rightarrow> real list \<Rightarrow> jsnum list \<times> real list" where
  "fill_unused trailSize gpuSlot posArr ageArr =
     fold (\<lambda>slot (ps, ages).
             (ps[slot * 2 := Num 99999, slot * 2 + 1 := Num 99999], ages[slot := 9999]))
       [gpuSlot..<trailSize] (posArr, ageArr)"

text \<open>GPU upload: player entries first, cubes get whatever is left.\<close>

definition upload :: "real \<Rightarrow> grass \<Rightarrow> grass" where
  "upload time g =
     (case write_trail time (TRAIL_SIZE g) (playerTrail g) 0 (trailPosNode g) (trailAgesNode g) of
        (slot1, pos1, ages1) \<Rightarrow>
          (case write_trail time (TRAIL_SIZE g) (cubeTrail g) slot1 pos1 ages1 of
             (slot2, pos2, ages2) \<Rightarrow>
               (case fill_unused (TRAIL_SIZE g) slot2 pos2 ages2 of
                  (pos3, ages3) \<Rightarrow>
                    g\<lparr> trailPosNode := pos3, trailAgesNode := ages3,
                       trailPosNode_needsUpdate := True,
                       trailAgesNode_needsUpdate := True \<rparr>)))"

text \<open>
  \<open>update(time, playerPos, onGround, cubePositions)\<close>. A falsy \<open>playerPos\<close> or
  \<open>cubePositions\<close> (undefined, null) is \<open>None\<close>; an array, also an empty one, is truthy.
\<close>

definition update ::
  "real \<Rightarrow> pos option \<Rightarrow> bool \<Rightarrow> pos list option \<Rightarrow> grass \<Rightarrow> outcome \<times> grass" where
  "update time playerPos onGround cubePositions g =
     (let g0 = g\<lparr> timeNode := time * 2.0 \<rparr>
      in case playerPos of
           None \<Rightarrow> (Returned, g0)
         | Some p \<Rightarrow>
             (case record_cubes time cubePositions (record_player time p onGround g0) of
                (Threw e, g2) \<Rightarrow> (Threw e, g2)
              | (Returned, g2) \<Rightarrow> (Returned, upload time g2)))"

text \<open>
  A sequence of frames: the host calls \<open>update\<close> once per animation frame, and asks for
  the next frame before it runs the current one, so a frame that throws does not stop the
  later ones. \<open>run\<close> is the state after the frames, \<open>outcomes\<close> how each one ended.
\<close>

type_synonym call = "real \<times> pos option \<times> bool \<times> pos list option"

fun update_call :: "call \<Rightarrow> grass \<Rightarrow> outcome \<times> grass" where
  "update_call (time, playerPos, onGround, cubePositions) g =
     update time playerPos onGround cubePositions g"

fun run :: "call list \<Rightarrow> grass \<Rightarrow> grass" where
  "run [] g = g"
| "run (c # cs) g = run cs (snd (update_call c g))"

fun outcomes :: "call list \<Rightarrow> grass \<Rightarrow> outcome list" where
  "outcomes [] g = []"
| "outcomes (c # cs) g = fst (update_call c g) # outcomes cs (snd (update_call c g))"

text \<open>Slot \<open>i\<close> of the packed arrays: \<open>(array[i * 2], array[i * 2 + 1], ages[i])\<close>.\<close>

definition slot_at :: "jsnum list \<Rightarrow> real list \<Rightarrow> nat \<Rightarrow> jsnum \<times> jsnum \<times> real" where
  "slot_at posArr ageArr i = (posArr ! (i * 2), posArr ! (i * 2 + 1), ageArr ! i)"

definition packed_slot :: "grass \<Rightarrow> nat \<Rightarrow> jsnum \<times> jsnum \<times> real" where
  "packed_slot g i = slot_at (trailPosNode g) (trailAgesNode g) i"

text \<open>The uniform arrays have the lengths \<open>setMaterial\<close> gave them.\<close>

definition arrays_ok :: "grass \<Rightarrow> bool" where
  "arrays_ok g =
     (length (trailPosNode g) = TRAIL_SIZE g * 2 \<and> length (trailAgesNode g) = TRAIL_SIZE g)"

text \<open>The trails are within their capacities, and the capacities are not zero.\<close>

definition caps_ok :: "grass \<Rightarrow> bool" where
  "caps_ok g =
     (0 < PLAYER_SLOTS g \<and> 0 < CUBE_SLOTS g
      \<and> length (playerTrail g) \<le> PLAYER_SLOTS g \<and> length (cubeTrail g) \<le> CUBE_SLOTS g)"

text \<open>
  The movement test of the cube loop, \<open>dx * dx + dz * dz > MOVE_THRESHOLD_SQ\<close>, for a
  cube's current position and its remembered one; the footprint the loop pushes, and the
  position it remembers.
\<close>

definition moved :: "pos \<Rightarrow> pos \<Rightarrow> bool" where
  "moved cube old =
     (let dx = js_sub (pos_x cube) (pos_x old);
          dz = js_sub (pos_z cube) (pos_z old)
      in js_gt (js_add (js_mul dx dx) (js_mul dz dz)) (Num 0.09))"

definition footprint :: "real \<Rightarrow> pos \<Rightarrow> entry" where
  "footprint time old = \<lparr> entry_x = pos_x old, entry_z = pos_z old, entry_t = time \<rparr>"

definition copy_pos :: "pos \<Rightarrow> pos" where
  "copy_pos c = \<lparr> pos_x = pos_x c, pos_z = pos_z c \<rparr>"

text \<open>What the packer writes for a trail entry at time \<open>time\<close>, and for an unused slot.\<close>

definition entry_slot :: "real \<Rightarrow> entry \<Rightarrow> jsnum \<times> jsnum \<times> real" where
  "entry_slot time e = (entry_x e, entry_z e, time - entry_t e)"

definition sentinel_slot :: "jsnum \<times> jsnum \<times> real" where
  "sentinel_slot = (Num 99999, Num 99999, 9999)"

text \<open>What \<open>update\<close> never writes.\<close>

definition same_config :: "grass \<Rightarrow> grass \<Rightarrow> bool" where
  "same_config g g' =
     (TRAIL_SIZE g' = TRAIL_SIZE g \<and> PLAYER_SLOTS g' = PLAYER_SLOTS g
      \<and> CUBE_SLOTS g' = CUBE_SLOTS g \<and> HOLD_TIME g' = HOLD_TIME g \<and> FADE_TIME g' = FADE_TIME g
      \<and> playerRadius g' = playerRadius g \<and> playerStrength g' = playerStrength g
      \<and> CUBE_COUNT g' = CUBE_COUNT g \<and> cubePosNode g' = cubePosNode g
      \<and> cubeRadius g' = cubeRadius g \<and> cubeStrength g' = cubeStrength g
      \<and> lastCubeSampleTime g' = lastCubeSampleTime g)"

section \<open>The field evaluator (\<open>Grass.setMaterial\<close>, \<open>positionNode\<close>)\<close>

text \<open>
  The evaluator runs on the GPU over the uniform arrays; it is modelled over arrays of
  finite numbers. \<open>tipness = step(vertexLoopIndex, 0.5)\<close> with
  \<open>vertexLoopIndex = vertexIndex.toFloat().mod(3)\<close>.
\<close>

definition vertexLoopIndex :: "nat \<Rightarrow> real" where
  "vertexLoopIndex vertexIndex = real (vertexIndex mod 3)"

definition tipness :: "nat \<Rightarrow> real" where
  "tipness vertexIndex = step (vertexLoopIndex vertexIndex) 0.5"

text \<open>\<open>const timeFalloff = smoothstep(float(4.0), float(3.0), age)\<close>\<close>

definition timeFalloff :: "real \<Rightarrow> real" where
  "timeFalloff age = smoothstep 4 3 age"

text \<open>\<open>spatialFalloff = smoothstep(playerRadius, 0.0, dist)\<close>, \<open>dist = |toDelta| + 0.001\<close>.\<close>

definition spatialFalloff :: "real \<Rightarrow> vec2 \<Rightarrow> vec2 \<Rightarrow> real" where
  "spatialFalloff radius bladePosition trailPoint =
     (let toDelta = vec2_sub bladePosition trailPoint;
          dist = vec2_length toDelta + 0.001
      in smoothstep radius 0.0 dist)"

definition weight :: "real \<Rightarrow> vec2 \<Rightarrow> vec2 \<Rightarrow> real \<Rightarrow> real" where
  "weight radius bladePosition trailPoint age =
     spatialFalloff radius bladePosition trailPoint * timeFalloff age"

definition contribution :: "real \<Rightarrow> vec2 \<Rightarrow> vec2 \<Rightarrow> real \<Rightarrow> vec2" where
  "contribution radius bladePosition trailPoint age =
     (let toDelta = vec2_sub bladePosition trailPoint;
          dist = vec2_length toDelta + 0.001;
          pushDir = vec2_div toDelta dist
      in vec2_mul pushDir (weight radius bladePosition trailPoint age))"

text \<open>One pass of the trail loop's body for slot \<open>i\<close>, on the running \<open>totalPush\<close>.\<close>

definition trail_slot :: "real \<Rightarrow> real list \<Rightarrow> real list \<Rightarrow> vec2 \<Rightarrow> nat \<Rightarrow> vec2 \<Rightarrow> vec2" where
  "trail_slot radius trailPos trailAges bladePosition i totalPush =
     (let tx = trailPos ! (i * 2);
          tz = trailPos ! (i * 2 + 1);
          trailPoint = (tx, tz);
          age = trailAges ! i;
          c = contribution radius bladePosition trailPoint age
      in if vec2_length c > vec2_length totalPush then c else totalPush)"

text \<open>\<open>Loop({ start: 0, end: this.TRAIL_SIZE }, ...)\<close> from \<open>totalPush = vec2(0, 0)\<close>.\<close>

definition totalPush :: "nat \<Rightarrow> real \<Rightarrow> real list \<Rightarrow> real list \<Rightarrow> vec2 \<Rightarrow> vec2" where
  "totalPush trailSize radius trailPos trailAges bladePosition =
     fold (trail_slot radius trailPos trailAges bladePosition) [0..<trailSize] (0, 0)"

text \<open>\<open>clampedPush = totalPush.mul(this.playerStrength).mul(tipness)\<close>\<close>

definition clampedPush ::
  "nat \<Rightarrow> real \<Rightarrow> real \<Rightarrow> real list \<Rightarrow> real list \<Rightarrow> vec2 \<Rightarrow> nat \<Rightarrow> vec2" where
  "clampedPush trailSize radius strength trailPos trailAges bladePosition vertexIndex =
     vec2_mul (vec2_mul (totalPush trailSize radius trailPos trailAges bladePosition) strength)
       (tipness vertexIndex)"

text \<open>The cube loop: instant displacement, no time decay.\<close>

definition cube_slot :: "real \<Rightarrow> real list \<Rightarrow> vec2 \<Rightarrow> nat \<Rightarrow> vec2 \<Rightarrow> vec2" where
  "cube_slot radius cubePos bladePosition ci cubePush =
     (let cx = cubePos ! (ci * 2);
          cz = cubePos ! (ci * 2 + 1);
          cubePoint = (cx, cz);
          cubeDelta = vec2_sub bladePosition cubePoint;
          cubeDist = vec2_length cubeDelta + 0.001;
          cubeSpatial = smoothstep radius 0.0 cubeDist;
          cubeDir = vec2_div cubeDelta cubeDist;
          cubeContrib = vec2_mul cubeDir cubeSpatial
      in if vec2_length cubeContrib > vec2_length cubePush then cubeContrib else cubePush)"

definition cubePush :: "grass \<Rightarrow> vec2 \<Rightarrow> vec2" where
  "cubePush g bladePosition =
     fold (cube_slot (cubeRadius g) (cubePosNode g) bladePosition) [0..<CUBE_COUNT g] (0, 0)"

text \<open>\<open>cubePush.mul(this.cubeStrength).mul(tipness)\<close>, the vector added to the vertex.\<close>

definition cube_displacement :: "grass \<Rightarrow> vec2 \<Rightarrow> nat \<Rightarrow> vec2" where
  "cube_displacement g bladePosition vertexIndex =
     vec2_mul (vec2_mul (cubePush g bladePosition) (cubeStrength g)) (tipness vertexIndex)"

text \<open>
  The blades of \<open>setGeometry\<close> stand in the square of side \<open>size = 60\<close> around the origin,
  and the mesh is not moved.
\<close>

definition in_field :: "vec2 \<Rightarrow> bool" where
  "in_field bladePosition = (\<bar>fst bladePosition\<bar> \<le> 60 / 2 \<and> \<bar>snd bladePosition\<bar> \<le> 60 / 2)"

section \<open>Example inputs\<close>

text \<open>A player position, a cube before and after a move of one unit, and a sample whose
  coordinates are \<open>NaN\<close>.\<close>

definition ex_player :: pos where "ex_player = \<lparr> pos_x = Num 1, pos_z = Num 2 \<rparr>"
definition ex_cube_a :: pos where "ex_cube_a = \<lparr> pos_x = Num 0, pos_z = Num 0 \<rparr>"
definition ex_cube_b :: pos where "ex_cube_b = \<lparr> pos_x = Num 1, pos_z = Num 0 \<rparr>"
definition ex_nan :: pos where "ex_nan = \<lparr> pos_x = NaN, pos_z = NaN \<rparr>"


section \<open>Properties of the builtins\<close>

lemma hermite_mono:
  fixes s t :: real
  assumes "0 \<le> s" "s \<le> t" "t \<le> 1"
  shows "s * s * (3 - 2 * s) \<le> t * t * (3 - 2 * t)"
proof -
  have ss: "s * s \<le> s" using assms by (simp add: mult_left_le)
  have tt: "t * t \<le> t" using assms by (simp add: mult_left_le)
  have st: "s * t \<le> s" using assms by (simp add: mult_left_le)
  have st': "s * t \<le> t" using assms by (simp add: mult_left_le_one_le)
  have "0 \<le> (t - s) * (3 * (t + s) - 2 * (t * t + s * t + s * s))"
    using assms ss tt st st' by (intro mult_nonneg_nonneg) auto
  also have "\<dots> = t * t * (3 - 2 * t) - s * s * (3 - 2 * s)"
    by (simp add: algebra_simps)
  finally show ?thesis by simp
qed

lemma clamp_unit_range: "0 \<le> clamp v 0 1 \<and> clamp v 0 1 \<le> 1"
  by (simp add: clamp_def)

lemma clamp_mono: "a \<le> b \<Longrightarrow> clamp a lo hi \<le> clamp b lo hi"
  by (auto simp: clamp_def min_def max_def)

lemma hermite_range:
  fixes t :: real
  assumes "0 \<le> t" "t \<le> 1"
  shows "0 \<le> t * t * (3 - 2 * t) \<and> t * t * (3 - 2 * t) \<le> 1"
proof -
  have "0 * 0 * (3 - 2 * 0) \<le> t * t * (3 - 2 * t)"
    using assms by (intro hermite_mono) auto
  moreover have "t * t * (3 - 2 * t) \<le> 1 * 1 * (3 - 2 * 1)"
    using assms by (intro hermite_mono) auto
  ultimately show ?thesis by simp
qed

lemma smoothstep_range: "0 \<le> smoothstep low high v \<and> smoothstep low high v \<le> 1"
  unfolding smoothstep_def Let_def using clamp_unit_range hermite_range by blast

lemma timeFalloff_clamp: "timeFalloff age = (let t = clamp (4 - age) 0 1 in t * t * (3 - 2 * t))"
proof -
  have "(age - 4) / (3 - 4) = 4 - age" by simp
  then show ?thesis by (simp add: timeFalloff_def smoothstep_def)
qed

lemma timeFalloff_hold: "age \<le> 3 \<Longrightarrow> timeFalloff age = 1"
  by (simp add: timeFalloff_clamp clamp_def)

lemma timeFalloff_expired: "4 \<le> age \<Longrightarrow> timeFalloff age = 0"
  by (simp add: timeFalloff_clamp clamp_def)

lemma timeFalloff_antimono: "a \<le> b \<Longrightarrow> timeFalloff b \<le> timeFalloff a"
proof -
  assume ab: "a \<le> b"
  have "clamp (4 - b) 0 1 \<le> clamp (4 - a) 0 1" using ab by (intro clamp_mono) simp
  then show ?thesis
    unfolding timeFalloff_clamp Let_def
    using clamp_unit_range by (intro hermite_mono) auto
qed

section \<open>Properties of the evaluator\<close>

lemma vec2_length_nonneg: "0 \<le> vec2_length v"
  by (simp add: vec2_length_def)

lemma vec2_length_zero: "vec2_length (0, 0) = 0"
  by (simp add: vec2_length_def)

lemma vec2_length_mul: "vec2_length (vec2_mul v c) = vec2_length v * \<bar>c\<bar>"
proof -
  have "fst v * c * (fst v * c) + snd v * c * (snd v * c)
        = (fst v * fst v + snd v * snd v) * (c * c)"
    by (simp add: algebra_simps)
  then show ?thesis
    by (simp add: vec2_length_def vec2_mul_def real_sqrt_mult)
qed

lemma vec2_length_div: "vec2_length (vec2_div v c) = vec2_length v / \<bar>c\<bar>"
proof -
  have "vec2_div v c = vec2_mul v (1 / c)"
    by (simp add: vec2_div_def vec2_mul_def)
  then show ?thesis by (simp add: vec2_length_mul)
qed

lemma pushDir_length: "vec2_length (vec2_div v (vec2_length v + 0.001)) \<le> 1"
proof -
  have "0 \<le> vec2_length v" by (rule vec2_length_nonneg)
  then show ?thesis by (simp add: vec2_length_div)
qed

lemma weight_range:
  "0 \<le> weight radius bladePosition trailPoint age
   \<and> weight radius bladePosition trailPoint age \<le> 1"
proof -
  have s: "0 \<le> spatialFalloff radius bladePosition trailPoint
           \<and> spatialFalloff radius bladePosition trailPoint \<le> 1"
    unfolding spatialFalloff_def Let_def by (rule smoothstep_range)
  have t: "0 \<le> timeFalloff age \<and> timeFalloff age \<le> 1"
    unfolding timeFalloff_def by (rule smoothstep_range)
  show ?thesis unfolding weight_def using s t by (simp add: mult_le_one)
qed

lemma contribution_length: "vec2_length (contribution radius bladePosition trailPoint age) \<le> 1"
proof -
  let ?w = "weight radius bladePosition trailPoint age"
  let ?d = "vec2_sub bladePosition trailPoint"
  have "vec2_length (contribution radius bladePosition trailPoint age)
        = vec2_length (vec2_div ?d (vec2_length ?d + 0.001)) * \<bar>?w\<bar>"
    by (simp add: contribution_def Let_def vec2_length_mul)
  also have "\<dots> \<le> 1 * 1"
    using pushDir_length [of ?d] weight_range [of radius bladePosition trailPoint age]
    by (intro mult_mono) (auto simp: vec2_length_nonneg)
  finally show ?thesis by simp
qed

lemma trail_slot_length:
  "vec2_length acc \<le> 1 \<Longrightarrow>
   vec2_length (trail_slot radius trailPos trailAges bladePosition i acc) \<le> 1"
  by (simp add: trail_slot_def Let_def contribution_length)

lemma fold_trail_slot_length:
  "vec2_length acc \<le> 1 \<Longrightarrow>
   vec2_length (fold (trail_slot radius trailPos trailAges bladePosition) slots acc) \<le> 1"
  by (induction slots arbitrary: acc) (simp_all add: trail_slot_length)

lemma totalPush_length: "vec2_length (totalPush n radius trailPos trailAges bladePosition) \<le> 1"
  unfolding totalPush_def by (rule fold_trail_slot_length) (simp add: vec2_length_zero)

lemma tipness_cases: "tipness vertexIndex = 0 \<or> tipness vertexIndex = 1"
  by (simp add: tipness_def step_def)

lemma abs_le_vec2_length: "\<bar>fst v\<bar> \<le> vec2_length v"
proof -
  have "fst v * fst v \<le> fst v * fst v + snd v * snd v" by simp
  then have "sqrt (fst v * fst v) \<le> sqrt (fst v * fst v + snd v * snd v)"
    by (rule real_sqrt_le_mono)
  then show ?thesis by (simp add: vec2_length_def)
qed

lemma smoothstep_outside: "0 < radius \<Longrightarrow> radius \<le> d \<Longrightarrow> smoothstep radius 0 d = 0"
proof -
  assume r: "0 < radius" and d: "radius \<le> d"
  have "(d - radius) / (0 - radius) \<le> 0"
    using r d by (simp add: divide_nonneg_neg zero_le_divide_iff)
  then have "clamp ((d - radius) / (0 - radius)) 0 1 = 0" by (simp add: clamp_def)
  then show ?thesis by (simp add: smoothstep_def)
qed

lemma cube_slot_far:
  assumes "cubePos ! (ci * 2) = 99999" "in_field bladePosition" "0 < radius" "radius \<le> 99969"
  shows "cube_slot radius cubePos bladePosition ci (0, 0) = (0, 0)"
proof -
  let ?delta = "vec2_sub bladePosition (cubePos ! (ci * 2), cubePos ! (ci * 2 + 1))"
  have "fst ?delta \<le> - 99969"
    using assms(1,2) by (auto simp: vec2_sub_def in_field_def)
  then have "99969 \<le> \<bar>fst ?delta\<bar>" by simp
  also have "\<dots> \<le> vec2_length ?delta" by (rule abs_le_vec2_length)
  finally have "radius \<le> vec2_length ?delta + 0.001" using assms(4) by simp
  then have "smoothstep radius 0 (vec2_length ?delta + 0.001) = 0"
    using assms(3) by (intro smoothstep_outside)
  then show ?thesis
    by (simp add: cube_slot_def Let_def vec2_mul_def vec2_length_zero)
qed

lemma fold_cube_slot_far:
  assumes "\<forall>ci\<in>set slots. cubePos ! (ci * 2) = 99999" "in_field bladePosition"
    "0 < radius" "radius \<le> 99969"
  shows "fold (cube_slot radius cubePos bladePosition) slots (0, 0) = (0, 0)"
  using assms by (induction slots) (simp_all add: cube_slot_far)

lemma cubePush_initial:
  assumes "cubePosNode g = replicate (32 * 2) 99999" "CUBE_COUNT g = 32" "cubeRadius g = 0.8"
    "in_field bladePosition"
  shows "cubePush g bladePosition = (0, 0)"
  unfolding cubePush_def
  by (rule fold_cube_slot_far) (simp_all add: assms)

section \<open>Properties of the packer\<close>

lemma slot_at_update:
  assumes "Suc (s * 2) < length P" "s < length A"
  shows "slot_at (P[s * 2 := a, Suc (s * 2) := b]) (A[s := c]) i
         = (if i = s then (a, b, c) else slot_at P A i)"
  using assms by (auto simp: slot_at_def nth_list_update)

lemma write_trail_lengths:
  "write_trail time n es s P A = (s', P', A') \<Longrightarrow> length P' = length P \<and> length A' = length A"
  by (induction es arbitrary: s P A) (auto split: if_splits)

lemma write_trail_cursor:
  "s \<le> n \<Longrightarrow> write_trail time n es s P A = (s', P', A') \<Longrightarrow> s' = min (s + length es) n"
proof (induction es arbitrary: s P A)
  case Nil
  then show ?case by simp
next
  case (Cons e rest)
  show ?case
  proof (cases "s < n")
    case True
    with Cons.prems have "write_trail time n rest (Suc s)
        (P[s * 2 := entry_x e, Suc (s * 2) := entry_z e]) (A[s := time - entry_t e]) = (s', P', A')"
      by simp
    from Cons.IH [OF _ this] True have "s' = min (Suc s + length rest) n" by simp
    then show ?thesis by simp
  next
    case False
    with Cons.prems show ?thesis by simp
  qed
qed

lemma write_trail_slots:
  assumes "length P = n * 2" "length A = n" "s \<le> n"
    and "write_trail time n es s P A = (s', P', A')" "i < n"
  shows "slot_at P' A' i =
           (if s \<le> i \<and> i < s + length es then entry_slot time (es ! (i - s)) else slot_at P A i)"
  using assms
proof (induction es arbitrary: s P A)
  case Nil
  then show ?case by auto
next
  case (Cons e rest)
  show ?case
  proof (cases "s < n")
    case False
    with Cons.prems show ?thesis by auto
  next
    case True
    let ?P1 = "P[s * 2 := entry_x e, s * 2 + 1 := entry_z e]"
    let ?A1 = "A[s := time - entry_t e]"
    from True Cons.prems have rec: "write_trail time n rest (s + 1) ?P1 ?A1 = (s', P', A')"
      by simp
    have ih: "slot_at P' A' i =
        (if s + 1 \<le> i \<and> i < s + 1 + length rest then entry_slot time (rest ! (i - (s + 1)))
         else slot_at ?P1 ?A1 i)"
      using Cons.IH [OF _ _ _ rec \<open>i < n\<close>] True Cons.prems(1,2) by simp
    have upd: "slot_at ?P1 ?A1 i = (if i = s then entry_slot time e else slot_at P A i)"
      using True Cons.prems(1,2) by (simp add: slot_at_update entry_slot_def)
    show ?thesis
    proof (cases "i = s")
      case True
      then show ?thesis using ih upd by simp
    next
      case False
      then show ?thesis using ih upd by (auto simp: nth_Cons')
    qed
  qed
qed

lemma fill_fold_lengths:
  "fold (\<lambda>slot (ps, ages). (ps[slot * 2 := a, slot * 2 + 1 := b], ages[slot := c])) js (P, A) = (P', A')
   \<Longrightarrow> length P' = length P \<and> length A' = length A"
  by (induction js arbitrary: P A) auto

lemma fill_fold_slots:
  assumes "length P = n * 2" "length A = n" "\<forall>j\<in>set js. j < n"
    and "fold (\<lambda>slot (ps, ages). (ps[slot * 2 := a, slot * 2 + 1 := b], ages[slot := c])) js (P, A) = (P', A')"
  shows "slot_at P' A' i = (if i \<in> set js then (a, b, c) else slot_at P A i)"
  using assms
proof (induction js arbitrary: P A)
  case Nil
  then show ?case by simp
next
  case (Cons j js)
  let ?P1 = "P[j * 2 := a, j * 2 + 1 := b]"
  let ?A1 = "A[j := c]"
  from Cons.prems have rec:
    "fold (\<lambda>slot (ps, ages). (ps[slot * 2 := a, slot * 2 + 1 := b], ages[slot := c])) js (?P1, ?A1) = (P', A')"
    by simp
  have "slot_at P' A' i = (if i \<in> set js then (a, b, c) else slot_at ?P1 ?A1 i)"
    using Cons.IH [OF _ _ _ rec] Cons.prems(1,2,3) by simp
  moreover have "slot_at ?P1 ?A1 i = (if i = j then (a, b, c) else slot_at P A i)"
    using Cons.prems(1,2,3) by (simp add: slot_at_update)
  ultimately show ?case by auto
qed

lemma fill_unused_lengths:
  "fill_unused n s P A = (P', A') \<Longrightarrow> length P' = length P \<and> length A' = length A"
  unfolding fill_unused_def by (rule fill_fold_lengths)

lemma fill_unused_slots:
  assumes "length P = n * 2" "length A = n" "fill_unused n s P A = (P', A')" "i < n"
  shows "slot_at P' A' i = (if s \<le> i then sentinel_slot else slot_at P A i)"
proof -
  have "slot_at P' A' i = (if i \<in> set [s..<n] then (Num 99999, Num 99999, 9999) else slot_at P A i)"
    using assms(1,2) assms(3) [unfolded fill_unused_def]
    by (intro fill_fold_slots [where n = n]) auto
  then show ?thesis using \<open>i < n\<close> by (simp add: sentinel_slot_def)
qed

lemma upload_fields:
  "playerTrail (upload time g) = playerTrail g"
  "cubeTrail (upload time g) = cubeTrail g"
  "TRAIL_SIZE (upload time g) = TRAIL_SIZE g"
  by (simp_all add: upload_def split: prod.splits)

lemma upload_arrays_ok: "arrays_ok g \<Longrightarrow> arrays_ok (upload time g)"
  by (auto simp: arrays_ok_def upload_def split: prod.splits
      dest!: write_trail_lengths fill_unused_lengths)

lemma upload_slots:
  assumes ok: "arrays_ok g" and i: "i < TRAIL_SIZE g"
  shows "packed_slot (upload time g) i =
     (if i < length (playerTrail g) then entry_slot time (playerTrail g ! i)
      else if i - length (playerTrail g) < length (cubeTrail g)
        then entry_slot time (cubeTrail g ! (i - length (playerTrail g)))
      else sentinel_slot)"
proof -
  let ?n = "TRAIL_SIZE g"
  obtain s1 P1 A1 where w1:
    "write_trail time ?n (playerTrail g) 0 (trailPosNode g) (trailAgesNode g) = (s1, P1, A1)"
    by (metis prod_cases3)
  obtain s2 P2 A2 where w2: "write_trail time ?n (cubeTrail g) s1 P1 A1 = (s2, P2, A2)"
    by (metis prod_cases3)
  obtain P3 A3 where f: "fill_unused ?n s2 P2 A2 = (P3, A3)"
    by (metis surj_pair)
  have len0: "length (trailPosNode g) = ?n * 2" "length (trailAgesNode g) = ?n"
    using ok by (simp_all add: arrays_ok_def)
  have len1: "length P1 = ?n * 2" "length A1 = ?n"
    using write_trail_lengths [OF w1] len0 by simp_all
  have len2: "length P2 = ?n * 2" "length A2 = ?n"
    using write_trail_lengths [OF w2] len1 by simp_all
  have s1: "s1 = min (length (playerTrail g)) ?n"
    using write_trail_cursor [OF _ w1] by simp
  have s2: "s2 = min (s1 + length (cubeTrail g)) ?n"
    using write_trail_cursor [OF _ w2] s1 by simp
  have e1: "slot_at P1 A1 i =
      (if i < length (playerTrail g) then entry_slot time (playerTrail g ! i)
       else slot_at (trailPosNode g) (trailAgesNode g) i)"
    using write_trail_slots [OF len0 _ w1 i] by simp
  have e2: "slot_at P2 A2 i =
      (if s1 \<le> i \<and> i < s1 + length (cubeTrail g) then entry_slot time (cubeTrail g ! (i - s1))
       else slot_at P1 A1 i)"
    using write_trail_slots [OF len1 _ w2 i] s1 by simp
  have e3: "slot_at P3 A3 i = (if s2 \<le> i then sentinel_slot else slot_at P2 A2 i)"
    using fill_unused_slots [OF len2 f i] .
  have "packed_slot (upload time g) i = slot_at P3 A3 i"
    by (simp add: upload_def packed_slot_def w1 w2 f)
  then show ?thesis
    using e1 e2 e3 s1 s2 i by (auto simp: min_def split: if_splits)
qed

section \<open>Properties of \<open>update\<close>\<close>

lemma record_player_shape:
  "record_player time p og g = g \<or>
   record_player time p og g =
     g\<lparr> lastSampleTime := time,
        playerTrail := prune time (HOLD_TIME g + FADE_TIME g) (PLAYER_SLOTS g)
          (playerTrail g @ [\<lparr> entry_x = pos_x p, entry_z = pos_z p, entry_t = time \<rparr>]) \<rparr>"
  by (simp add: record_player_def)

lemma record_cubes_shape:
  "\<exists>trail lp. snd (record_cubes time cps g) = g\<lparr> cubeTrail := trail, cubeLastPos := lp \<rparr>"
proof (cases cps)
  case None
  show ?thesis
    by (intro exI [of _ "cubeTrail g"] exI [of _ "cubeLastPos g"])
       (simp add: None record_cubes_def)
next
  case (Some cubes)
  let ?lp = "case cubeLastPos g of
               None \<Rightarrow> map (\<lambda>c. \<lparr> pos_x = pos_x c, pos_z = pos_z c \<rparr>) cubes
             | Some remembered \<Rightarrow> remembered"
  obtain out trail lp' where loop: "cube_loop time cubes 0 (cubeTrail g) ?lp = (out, trail, lp')"
    using prod_cases3 by blast
  show ?thesis
  proof (cases out)
    case Returned
    show ?thesis
      by (intro exI [of _ "prune time (HOLD_TIME g + FADE_TIME g) (CUBE_SLOTS g) trail"]
                exI [of _ "Some lp'"])
         (simp add: Some record_cubes_def loop Returned)
  next
    case (Threw e)
    show ?thesis
      by (intro exI [of _ trail] exI [of _ "Some lp'"])
         (simp add: Some record_cubes_def loop Threw)
  qed
qed

lemma upload_shape:
  "\<exists>P A. upload time g = g\<lparr> trailPosNode := P, trailAgesNode := A,
        trailPosNode_needsUpdate := True, trailAgesNode_needsUpdate := True \<rparr>"
  by (auto simp: upload_def split: prod.splits)

lemma same_config_refl: "same_config g g"
  by (simp add: same_config_def)

lemma same_config_trans: "same_config a b \<Longrightarrow> same_config b c \<Longrightarrow> same_config a c"
  by (simp add: same_config_def)

lemma record_player_config: "same_config g (record_player time p og g)"
  using record_player_shape [of time p og g] by (auto simp: same_config_def)

lemma record_cubes_config: "same_config g (snd (record_cubes time cps g))"
  using record_cubes_shape [of time cps g] by (auto simp: same_config_def)

lemma upload_config: "same_config g (upload time g)"
  using upload_shape [of time g] by (auto simp: same_config_def)

lemma update_Some:
  "update time (Some p) og cps g =
     (case record_cubes time cps (record_player time p og (g\<lparr> timeNode := time * 2 \<rparr>)) of
        (Threw e, g2) \<Rightarrow> (Threw e, g2)
      | (Returned, g2) \<Rightarrow> (Returned, upload time g2))"
  by (simp add: update_def)

lemma update_None: "update time None og cps g = (Returned, g\<lparr> timeNode := time * 2 \<rparr>)"
  by (simp add: update_def)

lemma update_Some_split:
  assumes "g1 = record_player time p og (g\<lparr> timeNode := time * 2 \<rparr>)"
    and "record_cubes time cps g1 = (out, g2)"
  shows "update time (Some p) og cps g =
           (case out of Returned \<Rightarrow> (Returned, upload time g2) | Threw e \<Rightarrow> (Threw e, g2))"
  using assms by (simp add: update_Some split: outcome.splits)

lemma update_config: "same_config g (snd (update time pp og cps g))"
proof (cases pp)
  case None
  then show ?thesis by (simp add: update_None same_config_def)
next
  case (Some p)
  define g0 where "g0 = g\<lparr> timeNode := time * 2 \<rparr>"
  define g1 where "g1 = record_player time p og g0"
  obtain out g2 where rc: "record_cubes time cps g1 = (out, g2)"
    by (cases "record_cubes time cps g1")
  have c0: "same_config g g0" by (simp add: same_config_def g0_def)
  have c1: "same_config g0 g1" unfolding g1_def by (rule record_player_config)
  have c2: "same_config g1 g2" using record_cubes_config [of g1 time cps] by (simp add: rc)
  have c02: "same_config g g2"
    by (rule same_config_trans [OF same_config_trans [OF c0 c1] c2])
  have upd: "update time (Some p) og cps g =
           (case out of Returned \<Rightarrow> (Returned, upload time g2) | Threw e \<Rightarrow> (Threw e, g2))"
    by (rule update_Some_split [OF _ rc]) (simp add: g1_def g0_def)
  show ?thesis
  proof (cases out)
    case Returned
    then have "snd (update time pp og cps g) = upload time g2"
      by (simp add: Some upd)
    then show ?thesis using same_config_trans [OF c02 upload_config [of g2 time]] by simp
  next
    case (Threw e)
    then have "snd (update time pp og cps g) = g2"
      by (simp add: Some upd)
    then show ?thesis using c02 by simp
  qed
qed

lemma run_config: "same_config g (run calls g)"
proof (induction calls arbitrary: g)
  case Nil
  then show ?case by (simp add: same_config_refl)
next
  case (Cons c cs)
  obtain time pp og cps where c: "c = (time, pp, og, cps)" by (cases c)
  have "same_config g (snd (update_call c g))" using update_config by (simp add: c)
  from same_config_trans [OF this Cons.IH] show ?case by simp
qed

lemma record_player_arrays: "arrays_ok g \<Longrightarrow> arrays_ok (record_player time p og g)"
  using record_player_shape [of time p og g] by (auto simp: arrays_ok_def)

lemma record_cubes_arrays: "arrays_ok g \<Longrightarrow> arrays_ok (snd (record_cubes time cps g))"
  using record_cubes_shape [of time cps g] by (auto simp: arrays_ok_def)

lemma update_arrays_ok:
  assumes ok: "arrays_ok g"
  shows "arrays_ok (snd (update time pp og cps g))"
proof (cases pp)
  case None
  then show ?thesis using ok by (simp add: update_None arrays_ok_def)
next
  case (Some p)
  define g0 where "g0 = g\<lparr> timeNode := time * 2 \<rparr>"
  define g1 where "g1 = record_player time p og g0"
  obtain out g2 where rc: "record_cubes time cps g1 = (out, g2)"
    by (cases "record_cubes time cps g1")
  have "arrays_ok g0" using ok by (simp add: arrays_ok_def g0_def)
  then have "arrays_ok g1" unfolding g1_def by (rule record_player_arrays)
  then have ok2: "arrays_ok g2" using record_cubes_arrays [of g1 time cps] by (simp add: rc)
  have upd: "update time (Some p) og cps g =
           (case out of Returned \<Rightarrow> (Returned, upload time g2) | Threw e \<Rightarrow> (Threw e, g2))"
    by (rule update_Some_split [OF _ rc]) (simp add: g1_def g0_def)
  show ?thesis
    using ok2 upload_arrays_ok [of g2 time] by (cases out) (simp_all add: Some upd)
qed

lemma setMaterial_arrays_ok: "arrays_ok (setMaterial isMobile)"
  by (simp add: arrays_ok_def setMaterial_def)

lemma run_arrays_ok: "arrays_ok g \<Longrightarrow> arrays_ok (run calls g)"
proof (induction calls arbitrary: g)
  case Nil
  then show ?case by simp
next
  case (Cons c cs)
  obtain time pp og cps where c: "c = (time, pp, og, cps)" by (cases c)
  have "arrays_ok (snd (update_call c g))" using Cons.prems update_arrays_ok by (simp add: c)
  then show ?case using Cons.IH by simp
qed

lemma prune_length: "0 < slots \<Longrightarrow> length (prune time totalTime slots trail) \<le> slots"
  by (simp add: prune_def slice_last_def Let_def)

lemma prune_age: "e \<in> set (prune time totalTime slots trail) \<Longrightarrow> time - entry_t e < totalTime + 0.2"
  by (auto simp: prune_def slice_last_def Let_def split: if_splits dest: in_set_dropD)

lemma record_player_caps: "caps_ok g \<Longrightarrow> caps_ok (record_player time p og g)"
  by (simp add: caps_ok_def record_player_def prune_length)

lemma record_player_age:
  assumes "og" "time - lastSampleTime g > 0.1" "e \<in> set (playerTrail (record_player time p og g))"
  shows "time - entry_t e < HOLD_TIME g + FADE_TIME g + 0.2"
  using assms prune_age [of e time "HOLD_TIME g + FADE_TIME g" "PLAYER_SLOTS g"]
  by (simp add: record_player_def)

lemma record_player_cube_fields:
  "cubeTrail (record_player time p og g) = cubeTrail g"
  "cubeLastPos (record_player time p og g) = cubeLastPos g"
  by (simp_all add: record_player_def)

lemma record_cubes_None: "record_cubes time None g = (Returned, g)"
  by (simp add: record_cubes_def)

lemma record_cubes_Returned:
  assumes "record_cubes time (Some cubes) g = (Returned, g2)"
  shows "\<exists>trail lp. g2 = g\<lparr> cubeTrail := prune time (HOLD_TIME g + FADE_TIME g) (CUBE_SLOTS g) trail,
                                cubeLastPos := lp \<rparr>"
proof -
  define lp0 where "lp0 = (case cubeLastPos g of
               None \<Rightarrow> map (\<lambda>c. \<lparr> pos_x = pos_x c, pos_z = pos_z c \<rparr>) cubes
             | Some remembered \<Rightarrow> remembered)"
  obtain out trail lp' where loop: "cube_loop time cubes 0 (cubeTrail g) lp0 = (out, trail, lp')"
    by (cases "cube_loop time cubes 0 (cubeTrail g) lp0")
  have rc: "record_cubes time (Some cubes) g =
      (case out of
         Threw e \<Rightarrow> (Threw e, g\<lparr> cubeTrail := trail, cubeLastPos := Some lp' \<rparr>)
       | Returned \<Rightarrow> (Returned, g\<lparr> cubeTrail := prune time (HOLD_TIME g + FADE_TIME g) (CUBE_SLOTS g) trail,
                                cubeLastPos := Some lp' \<rparr>))"
    using loop unfolding lp0_def by (simp add: record_cubes_def split: outcome.splits)
  show ?thesis
  proof (cases out)
    case Returned
    with assms rc have "g2 = g\<lparr> cubeTrail := prune time (HOLD_TIME g + FADE_TIME g) (CUBE_SLOTS g) trail,
                                cubeLastPos := Some lp' \<rparr>" by simp
    then show ?thesis by (intro exI)
  next
    case (Threw e)
    with assms rc show ?thesis by simp
  qed
qed

lemma record_cubes_caps:
  assumes "caps_ok g" "record_cubes time cps g = (Returned, g2)"
  shows "caps_ok g2"
proof (cases cps)
  case None
  with assms show ?thesis by (simp add: record_cubes_None)
next
  case (Some cubes)
  with assms(2) obtain trail lp where
    "g2 = g\<lparr> cubeTrail := prune time (HOLD_TIME g + FADE_TIME g) (CUBE_SLOTS g) trail,
                                cubeLastPos := lp \<rparr>"
    using record_cubes_Returned by blast
  then show ?thesis using assms(1) by (simp add: caps_ok_def prune_length)
qed

lemma record_cubes_age:
  assumes "record_cubes time (Some cubes) g = (Returned, g2)" "e \<in> set (cubeTrail g2)"
  shows "time - entry_t e < HOLD_TIME g + FADE_TIME g + 0.2"
proof -
  from assms(1) obtain trail lp where
    "g2 = g\<lparr> cubeTrail := prune time (HOLD_TIME g + FADE_TIME g) (CUBE_SLOTS g) trail,
                                cubeLastPos := lp \<rparr>"
    using record_cubes_Returned by blast
  then have "e \<in> set (prune time (HOLD_TIME g + FADE_TIME g) (CUBE_SLOTS g) trail)"
    using assms(2) by simp
  then show ?thesis by (rule prune_age)
qed

lemma upload_caps: "caps_ok g \<Longrightarrow> caps_ok (upload time g)"
  using upload_shape [of time g] by (auto simp: caps_ok_def)

text \<open>A frame with a player position that returns, taken apart.\<close>

lemma update_Some_Returned:
  assumes "update time (Some p) og cps g = (Returned, g')"
  shows "\<exists>g2. record_cubes time cps (record_player time p og (g\<lparr> timeNode := time * 2 \<rparr>))
               = (Returned, g2) \<and> g' = upload time g2"
proof -
  define g1 where "g1 = record_player time p og (g\<lparr> timeNode := time * 2 \<rparr>)"
  obtain out g2 where rc: "record_cubes time cps g1 = (out, g2)"
    by (cases "record_cubes time cps g1")
  have upd: "update time (Some p) og cps g =
           (case out of Returned \<Rightarrow> (Returned, upload time g2) | Threw e \<Rightarrow> (Threw e, g2))"
    by (rule update_Some_split [OF g1_def rc])
  from assms upd have "out = Returned \<and> g' = upload time g2"
    by (cases out) simp_all
  then show ?thesis using rc unfolding g1_def by simp
qed

lemma update_caps:
  assumes "caps_ok g" "update time pp og cps g = (Returned, g')"
  shows "caps_ok g'"
proof (cases pp)
  case None
  with assms show ?thesis by (auto simp: update_None caps_ok_def)
next
  case (Some p)
  define g1 where "g1 = record_player time p og (g\<lparr> timeNode := time * 2 \<rparr>)"
  from assms(2) Some obtain g2 where rc: "record_cubes time cps g1 = (Returned, g2)"
    and g': "g' = upload time g2"
    unfolding g1_def using update_Some_Returned by blast
  have "caps_ok (g\<lparr> timeNode := time * 2 \<rparr>)" using assms(1) by (simp add: caps_ok_def)
  then have "caps_ok g1" unfolding g1_def by (rule record_player_caps)
  then have "caps_ok g2" using rc by (rule record_cubes_caps)
  then show ?thesis unfolding g' by (rule upload_caps)
qed

lemma run_append: "run (xs @ ys) g = run ys (run xs g)"
  by (induction xs arbitrary: g) simp_all

lemma outcomes_append: "outcomes (xs @ ys) g = outcomes xs g @ outcomes ys (run xs g)"
  by (induction xs arbitrary: g) simp_all

lemma run_caps:
  assumes "caps_ok g" "list_all (\<lambda>out. out = Returned) (outcomes calls g)"
  shows "caps_ok (run calls g)"
  using assms
proof (induction calls arbitrary: g)
  case Nil
  then show ?case by simp
next
  case (Cons c cs)
  obtain time pp og cps where c: "c = (time, pp, og, cps)" by (cases c)
  from Cons.prems(2) have r: "fst (update time pp og cps g) = Returned"
    and rest: "list_all (\<lambda>out. out = Returned) (outcomes cs (snd (update time pp og cps g)))"
    by (simp_all add: c)
  have "update time pp og cps g = (Returned, snd (update time pp og cps g))"
    using r by (cases "update time pp og cps g") simp
  then have "caps_ok (snd (update time pp og cps g))"
    using Cons.prems(1) update_caps by blast
  from Cons.IH [OF this rest] show ?case by (simp add: c)
qed

lemma setMaterial_caps: "caps_ok (setMaterial isMobile)"
  by (simp add: caps_ok_def setMaterial_def)

lemma update_ages:
  assumes "update time (Some p) og cps g = (Returned, g')"
  shows "(og \<and> time - lastSampleTime g > 0.1 \<longrightarrow>
            (\<forall>e\<in>set (playerTrail g'). time - entry_t e < HOLD_TIME g + FADE_TIME g + 0.2))
         \<and> (cps \<noteq> None \<longrightarrow>
            (\<forall>e\<in>set (cubeTrail g'). time - entry_t e < HOLD_TIME g + FADE_TIME g + 0.2))"
proof -
  define g0 where "g0 = g\<lparr> timeNode := time * 2 \<rparr>"
  define g1 where "g1 = record_player time p og g0"
  from assms obtain g2 where rc: "record_cubes time cps g1 = (Returned, g2)"
    and g': "g' = upload time g2"
    unfolding g1_def g0_def using update_Some_Returned by blast
  have cfg: "HOLD_TIME g1 = HOLD_TIME g" "FADE_TIME g1 = FADE_TIME g"
    using record_player_config [of g0 time p og] by (simp_all add: same_config_def g1_def g0_def)
  have pt: "playerTrail g' = playerTrail g1"
    using record_cubes_shape [of time cps g1] rc by (auto simp: g' upload_fields)
  have ct: "cubeTrail g' = cubeTrail g2" by (simp add: g' upload_fields)
  have a: "time - entry_t e < HOLD_TIME g + FADE_TIME g + 0.2"
    if "og" "time - lastSampleTime g > 0.1" "e \<in> set (playerTrail g')" for e
  proof -
    have "time - entry_t e < HOLD_TIME g0 + FADE_TIME g0 + 0.2"
      using that record_player_age [of og time g0 e p] by (simp add: pt g1_def g0_def)
    then show ?thesis by (simp add: g0_def)
  qed
  have b: "time - entry_t e < HOLD_TIME g + FADE_TIME g + 0.2"
    if "cps \<noteq> None" "e \<in> set (cubeTrail g')" for e
  proof -
    from that(1) obtain cubes where "cps = Some cubes" by auto
    with rc that(2) have "time - entry_t e < HOLD_TIME g1 + FADE_TIME g1 + 0.2"
      using record_cubes_age by (simp add: ct)
    then show ?thesis by (simp add: cfg)
  qed
  show ?thesis using a b by blast
qed


lemma cube_loop_step:
  "i < length lastPos \<Longrightarrow>
   cube_loop time (cube # rest) i trail lastPos =
     (if moved cube (lastPos ! i) then
        cube_loop time rest (Suc i) (trail @ [footprint time (lastPos ! i)])
          (lastPos[i := copy_pos cube])
      else cube_loop time rest (Suc i) trail lastPos)"
  by (simp add: moved_def footprint_def copy_pos_def Let_def)

lemma cube_loop_zip:
  assumes "lastPos = done @ todo" "length done = i" "length cubes \<le> length todo"
  shows "cube_loop time cubes i trail lastPos =
     (Returned,
      trail @ map (\<lambda>(cube, old). footprint time old)
                (filter (\<lambda>(cube, old). moved cube old) (zip cubes todo)),
      done @ map (\<lambda>(cube, old). if moved cube old then copy_pos cube else old) (zip cubes todo)
        @ drop (length cubes) todo)"
  using assms
proof (induction cubes arbitrary: i trail lastPos "done" todo)
  case Nil
  then show ?case by simp
next
  case (Cons cube rest)
  from Cons.prems(3) obtain old todo' where todo: "todo = old # todo'"
    by (cases todo) auto
  have i: "i < length lastPos" and nth: "lastPos ! i = old"
    using Cons.prems(1,2) todo by (auto simp: nth_append)
  have upd: "lastPos[i := v] = (done @ [v]) @ todo'" for v
    using Cons.prems(1,2) todo by (simp add: list_update_append)
  have same: "lastPos = (done @ [old]) @ todo'"
    using Cons.prems(1) todo by simp
  have len: "length (done @ [v]) = Suc i" for v :: pos
    using Cons.prems(2) by simp
  have rest: "length rest \<le> length todo'"
    using Cons.prems(3) todo by simp
  show ?case
  proof (cases "moved cube old")
    case True
    have "cube_loop time (cube # rest) i trail lastPos =
        cube_loop time rest (Suc i) (trail @ [footprint time old]) ((done @ [copy_pos cube]) @ todo')"
      unfolding cube_loop_step [OF i] nth using True by (simp add: upd)
    also have "\<dots> = (Returned,
        (trail @ [footprint time old]) @ map (\<lambda>(cube, old). footprint time old)
                (filter (\<lambda>(cube, old). moved cube old) (zip rest todo')),
        (done @ [copy_pos cube])
          @ map (\<lambda>(cube, old). if moved cube old then copy_pos cube else old) (zip rest todo')
          @ drop (length rest) todo')"
      by (rule Cons.IH [OF refl len rest])
    finally show ?thesis using True by (simp add: todo)
  next
    case False
    have "cube_loop time (cube # rest) i trail lastPos =
        cube_loop time rest (Suc i) trail ((done @ [old]) @ todo')"
      unfolding cube_loop_step [OF i] nth using False same by simp
    also have "\<dots> = (Returned,
        trail @ map (\<lambda>(cube, old). footprint time old)
                (filter (\<lambda>(cube, old). moved cube old) (zip rest todo')),
        (done @ [old])
          @ map (\<lambda>(cube, old). if moved cube old then copy_pos cube else old) (zip rest todo')
          @ drop (length rest) todo')"
      by (rule Cons.IH [OF refl len rest])
    finally show ?thesis using False by (simp add: todo)
  qed
qed

lemma record_cubes_gate:
  assumes "cubeLastPos g = Some remembered" "length cubes = length remembered"
  shows "record_cubes time (Some cubes) g =
     (Returned,
      g\<lparr> cubeTrail := prune time (HOLD_TIME g + FADE_TIME g) (CUBE_SLOTS g)
           (cubeTrail g @ map (\<lambda>(cube, old). footprint time old)
                (filter (\<lambda>(cube, old). moved cube old) (zip cubes remembered))),
         cubeLastPos := Some (map (\<lambda>(cube, old). if moved cube old then copy_pos cube else old)
                (zip cubes remembered)) \<rparr>)"
proof -
  have "cube_loop time cubes 0 (cubeTrail g) remembered =
     (Returned,
      cubeTrail g @ map (\<lambda>(cube, old). footprint time old)
                (filter (\<lambda>(cube, old). moved cube old) (zip cubes remembered)),
      [] @ map (\<lambda>(cube, old). if moved cube old then copy_pos cube else old) (zip cubes remembered)
        @ drop (length cubes) remembered)"
    by (rule cube_loop_zip) (simp_all add: assms(2))
  then show ?thesis by (simp add: record_cubes_def assms)
qed

section \<open>Claims about the falloff\<close>

text \<open>
  C5. The time falloff of the evaluator, \<open>smoothstep(4.0, 3.0, age)\<close>, is exactly 1 for
  every age up to the hold time 3, does not increase as the age grows from 3 to 4 (the
  hold time plus the fade time), and is 0 for every age from 4 on.
\<close>

theorem timeFalloff_decay:
  "(age \<le> 3 \<longrightarrow> timeFalloff age = 1)
   \<and> (3 \<le> a \<and> a \<le> b \<and> b \<le> 4 \<longrightarrow> timeFalloff b \<le> timeFalloff a)
   \<and> (4 \<le> age' \<longrightarrow> timeFalloff age' = 0)"
  using timeFalloff_hold timeFalloff_expired timeFalloff_antimono by blast

theorem timeFalloff_decay_witness:
  "timeFalloff 2 = 1 \<and> timeFalloff (7 / 2) \<le> timeFalloff (13 / 4) \<and> timeFalloff 5 = 0"
  using timeFalloff_decay [of 2 "13 / 4" "7 / 2" 5] by simp

section \<open>Claims about the packer\<close>

text \<open>
  C2 (as amended). In every frame in which \<open>playerPos\<close> is present and \<open>update\<close> returns,
  whatever frames came before: with \<open>k\<close> the length of the primary trail after recording,
  packed slot \<open>i\<close> holds the primary trail's \<open>i\<close>-th entry with age \<open>time - t\<close> for
  \<open>i < k\<close>, the cube trail's entry \<open>i - k\<close> while that trail has one, and the sentinel
  values from there on; the size of the cube trail plays no part in the first \<open>k\<close> slots.
\<close>

theorem packed_priority:
  assumes "update time (Some p) onGround cubePositions (run calls (setMaterial isMobile))
             = (Returned, g')"
    and "i < TRAIL_SIZE g'"
  shows "packed_slot g' i =
     (if i < length (playerTrail g') then entry_slot time (playerTrail g' ! i)
      else if i - length (playerTrail g') < length (cubeTrail g')
        then entry_slot time (cubeTrail g' ! (i - length (playerTrail g')))
      else sentinel_slot)"
proof -
  define g where "g = run calls (setMaterial isMobile)"
  define g0 where "g0 = g\<lparr> timeNode := time * 2 \<rparr>"
  define g1 where "g1 = record_player time p onGround g0"
  obtain out g2 where rc: "record_cubes time cubePositions g1 = (out, g2)"
    by (cases "record_cubes time cubePositions g1")
  have upd: "update time (Some p) onGround cubePositions g =
           (case out of Returned \<Rightarrow> (Returned, upload time g2) | Threw e \<Rightarrow> (Threw e, g2))"
    by (rule update_Some_split [OF _ rc]) (simp add: g1_def g0_def)
  from assms(1) have g': "g' = upload time g2"
    unfolding g_def [symmetric] upd by (cases out) simp_all
  have "arrays_ok g" unfolding g_def by (intro run_arrays_ok setMaterial_arrays_ok)
  then have "arrays_ok g0" by (simp add: arrays_ok_def g0_def)
  then have "arrays_ok g1" unfolding g1_def by (rule record_player_arrays)
  then have ok2: "arrays_ok g2"
    using record_cubes_arrays [of g1 time cubePositions] by (simp add: rc)
  have i2: "i < TRAIL_SIZE g2" using assms(2) by (simp add: g' upload_fields)
  show ?thesis
    unfolding g' upload_fields by (rule upload_slots [OF ok2 i2])
qed



theorem packed_priority_witness:
  "fst (update (1 / 5) (Some ex_player) True (Some [ex_cube_a]) (run [] (setMaterial False)))
     = Returned
   \<and> 0 < TRAIL_SIZE
       (snd (update (1 / 5) (Some ex_player) True (Some [ex_cube_a]) (run [] (setMaterial False))))
   \<and> packed_slot
       (snd (update (1 / 5) (Some ex_player) True (Some [ex_cube_a]) (run [] (setMaterial False))))
       0 = (Num 1, Num 2, 0)"
proof -
  define u where
    "u = update (1 / 5) (Some ex_player) True (Some [ex_cube_a]) (run [] (setMaterial False))"
  have r: "fst u = Returned" unfolding u_def by code_simp
  have n: "0 < TRAIL_SIZE (snd u)" unfolding u_def by code_simp
  have t: "playerTrail (snd u) = [\<lparr> entry_x = Num 1, entry_z = Num 2, entry_t = 1 / 5 \<rparr>]"
    unfolding u_def by code_simp
  have "update (1 / 5) (Some ex_player) True (Some [ex_cube_a]) (run [] (setMaterial False))
          = (Returned, snd u)"
    using r unfolding u_def by (metis prod.collapse)
  from packed_priority [OF this n] have "packed_slot (snd u) 0 = (Num 1, Num 2, 0)"
    by (simp add: t entry_slot_def)
  then show ?thesis using r n unfolding u_def by simp
qed

text \<open>
  C2 as stated fails in a frame without \<open>playerPos\<close>: the packer does not run, and slot 0
  keeps the age 0 written at time 1/5 while the entry's age at time 1 is 4/5.
\<close>

theorem packed_priority_counterexample:
  "playerTrail (run [(1 / 5, Some ex_player, True, None), (1, None, True, None)]
       (setMaterial False))
     = [\<lparr> entry_x = Num 1, entry_z = Num 2, entry_t = 1 / 5 \<rparr>]
   \<and> TRAIL_SIZE (run [(1 / 5, Some ex_player, True, None), (1, None, True, None)]
       (setMaterial False)) = 80
   \<and> packed_slot (run [(1 / 5, Some ex_player, True, None), (1, None, True, None)]
       (setMaterial False)) 0 = (Num 1, Num 2, 0)
   \<and> entry_slot 1 \<lparr> entry_x = Num 1, entry_z = Num 2, entry_t = 1 / 5 \<rparr>
     = (Num 1, Num 2, 4 / 5)"
  by code_simp

section \<open>Claims about the evaluator\<close>

text \<open>
  C3. In every state the frames can reach, a slot that holds the sentinel values the
  packer writes (both position components 99999, age 9999) has weight
  \<open>spatialFalloff * timeFalloff = 0\<close> at every blade position, and the loop body leaves
  the running \<open>totalPush\<close> as it was: the slot contributes no displacement.
\<close>

theorem sentinel_neutral:
  assumes "trailPos ! (i * 2) = 99999" "trailPos ! (i * 2 + 1) = 99999" "trailAges ! i = 9999"
  shows "weight (playerRadius (run calls (setMaterial isMobile))) bladePosition
           (trailPos ! (i * 2), trailPos ! (i * 2 + 1)) (trailAges ! i) = 0
         \<and> trail_slot (playerRadius (run calls (setMaterial isMobile))) trailPos trailAges
             bladePosition i acc = acc"
proof -
  define radius where "radius = playerRadius (run calls (setMaterial isMobile))"
  have w: "weight radius bladePosition (99999, 99999) 9999 = 0"
    by (simp add: weight_def timeFalloff_expired)
  then have "contribution radius bladePosition (99999, 99999) 9999 = (0, 0)"
    by (simp add: contribution_def Let_def vec2_mul_def)
  then have "trail_slot radius trailPos trailAges bladePosition i acc = acc"
    using assms vec2_length_nonneg [of acc]
    by (simp add: trail_slot_def Let_def vec2_length_zero)
  then show ?thesis using w assms unfolding radius_def by simp
qed

theorem sentinel_neutral_witness:
  "replicate 80 (99999 :: real) ! (3 * 2) = 99999
   \<and> replicate 80 (99999 :: real) ! (3 * 2 + 1) = 99999
   \<and> replicate 40 (9999 :: real) ! 3 = 9999
   \<and> weight (playerRadius (run [] (setMaterial False))) (1, 2)
       (replicate 80 99999 ! (3 * 2), replicate 80 99999 ! (3 * 2 + 1))
       (replicate 40 9999 ! 3) = 0
   \<and> trail_slot (playerRadius (run [] (setMaterial False))) (replicate 80 99999)
       (replicate 40 9999) (1, 2) 3 (0, 0) = (0, 0)"
proof -
  have h: "replicate 80 (99999 :: real) ! (3 * 2) = 99999"
    "replicate 80 (99999 :: real) ! (3 * 2 + 1) = 99999"
    "replicate 40 (9999 :: real) ! 3 = 9999"
    by simp_all
  from sentinel_neutral [OF h] show ?thesis using h by blast
qed

text \<open>
  C4. In every state the frames can reach, for every blade position, every vertex and
  every content of the packed arrays, the length of the trail displacement
  \<open>totalPush * playerStrength * tipness\<close> is at most \<open>playerStrength\<close>.
\<close>

theorem clampedPush_bound:
  "vec2_length
     (clampedPush (TRAIL_SIZE (run calls (setMaterial isMobile)))
        (playerRadius (run calls (setMaterial isMobile)))
        (playerStrength (run calls (setMaterial isMobile)))
        trailPos trailAges bladePosition vertexIndex)
   \<le> playerStrength (run calls (setMaterial isMobile))"
proof -
  define g where "g = run calls (setMaterial isMobile)"
  let ?p = "totalPush (TRAIL_SIZE g) (playerRadius g) trailPos trailAges bladePosition"
  have "same_config (setMaterial isMobile) g" unfolding g_def by (rule run_config)
  then have strength: "0 \<le> playerStrength g"
    by (simp add: same_config_def setMaterial_def)
  have tip: "\<bar>tipness vertexIndex\<bar> \<le> 1"
    using tipness_cases [of vertexIndex] by auto
  have "vec2_length (clampedPush (TRAIL_SIZE g) (playerRadius g) (playerStrength g)
            trailPos trailAges bladePosition vertexIndex)
        = vec2_length ?p * \<bar>playerStrength g\<bar> * \<bar>tipness vertexIndex\<bar>"
    by (simp add: clampedPush_def vec2_length_mul)
  also have "\<dots> \<le> 1 * playerStrength g * 1"
    using totalPush_length [of "TRAIL_SIZE g" "playerRadius g" trailPos trailAges bladePosition]
      tip strength
    by (intro mult_mono) (auto simp: vec2_length_nonneg)
  finally show ?thesis unfolding g_def by simp
qed

theorem clampedPush_bound_witness:
  "vec2_length
     (clampedPush (TRAIL_SIZE (run [(1 / 5, Some ex_player, True, None)] (setMaterial False)))
        (playerRadius (run [(1 / 5, Some ex_player, True, None)] (setMaterial False)))
        (playerStrength (run [(1 / 5, Some ex_player, True, None)] (setMaterial False)))
        (1 # 2 # replicate 158 99999) (0 # replicate 79 9999) (3 / 2, 2) 0)
   \<le> playerStrength (run [(1 / 5, Some ex_player, True, None)] (setMaterial False))"
  by (rule clampedPush_bound)

text \<open>
  C6. \<open>update\<close> never writes \<open>cubePosNode\<close>: after any sequence of frames the array still
  holds 99999 everywhere, and the cube loop of the evaluator adds no displacement at any
  blade position within the field.
\<close>

theorem cube_channel_idle:
  "cubePosNode (run calls (setMaterial isMobile)) = replicate (32 * 2) 99999
   \<and> (in_field bladePosition \<longrightarrow>
        cube_displacement (run calls (setMaterial isMobile)) bladePosition vertexIndex = (0, 0))"
proof -
  define g where "g = run calls (setMaterial isMobile)"
  have "same_config (setMaterial isMobile) g" unfolding g_def by (rule run_config)
  then have c: "cubePosNode g = replicate (32 * 2) 99999" "CUBE_COUNT g = 32" "cubeRadius g = 0.8"
    by (simp_all add: same_config_def setMaterial_def)
  have "cube_displacement g bladePosition vertexIndex = (0, 0)" if "in_field bladePosition"
    using cubePush_initial [OF c that] by (simp add: cube_displacement_def vec2_mul_def)
  then show ?thesis using c(1) unfolding g_def by blast
qed

theorem cube_channel_idle_witness:
  "in_field (1, 2)
   \<and> cubePosNode (run [(1 / 5, Some ex_player, True, Some [ex_cube_a]),
                        (1 / 2, Some ex_player, True, Some [ex_cube_b])] (setMaterial False))
       = replicate (32 * 2) 99999
   \<and> cube_displacement (run [(1 / 5, Some ex_player, True, Some [ex_cube_a]),
                        (1 / 2, Some ex_player, True, Some [ex_cube_b])] (setMaterial False)) (1, 2) 0
       = (0, 0)"
proof -
  have f: "in_field (1, 2)" by (simp add: in_field_def)
  show ?thesis
    using f cube_channel_idle [of "[(1 / 5, Some ex_player, True, Some [ex_cube_a]),
                        (1 / 2, Some ex_player, True, Some [ex_cube_b])]" False "(1, 2)" 0]
    by blast
qed


section \<open>Claims about \<open>update\<close>\<close>

text \<open>
  C1 (as amended). After any sequence of frames in which every \<open>update\<close> returned, the
  primary trail holds at most \<open>PLAYER_SLOTS\<close> entries and the cube trail at most
  \<open>CUBE_SLOTS\<close>. The ages are bounded where the last frame pruned, and by the window plus
  the slack of 0.2 that the filter allows: after a frame that appended a primary sample
  (\<open>playerPos\<close> present, grounded, more than 0.1 since the last sample) every primary
  entry has \<open>time - t < HOLD_TIME + FADE_TIME + 0.2\<close>, and after a frame with \<open>playerPos\<close>
  and \<open>cubePositions\<close> present every cube entry has the same bound.
\<close>

theorem capacity_invariant:
  assumes "list_all (\<lambda>out. out = Returned)
     (outcomes (previous @ [(time, playerPos, onGround, cubePositions)]) (setMaterial isMobile))"
  shows "length (playerTrail (run (previous @ [(time, playerPos, onGround, cubePositions)])
             (setMaterial isMobile)))
           \<le> PLAYER_SLOTS (setMaterial isMobile)
     \<and> length (cubeTrail (run (previous @ [(time, playerPos, onGround, cubePositions)])
             (setMaterial isMobile)))
           \<le> CUBE_SLOTS (setMaterial isMobile)
     \<and> (playerPos \<noteq> None \<and> onGround
          \<and> time - lastSampleTime (run previous (setMaterial isMobile)) > 0.1 \<longrightarrow>
          (\<forall>e\<in>set (playerTrail (run (previous @ [(time, playerPos, onGround, cubePositions)])
                (setMaterial isMobile))).
             time - entry_t e
               < HOLD_TIME (setMaterial isMobile) + FADE_TIME (setMaterial isMobile) + 0.2))
     \<and> (playerPos \<noteq> None \<and> cubePositions \<noteq> None \<longrightarrow>
          (\<forall>e\<in>set (cubeTrail (run (previous @ [(time, playerPos, onGround, cubePositions)])
                (setMaterial isMobile))).
             time - entry_t e
               < HOLD_TIME (setMaterial isMobile) + FADE_TIME (setMaterial isMobile) + 0.2))"
proof -
  define g0 where "g0 = setMaterial isMobile"
  define g where "g = run previous g0"
  define g' where "g' = run (previous @ [(time, playerPos, onGround, cubePositions)]) g0"
  have caps: "caps_ok g'"
    unfolding g'_def g0_def using assms by (intro run_caps setMaterial_caps)
  have cfg: "same_config g0 g'" "same_config g0 g"
    unfolding g'_def g_def by (rule run_config)+
  have g'_eq: "g' = snd (update time playerPos onGround cubePositions g)"
    by (simp add: g'_def g_def run_append)
  have "fst (update time playerPos onGround cubePositions g) = Returned"
    using assms by (simp add: outcomes_append g_def g0_def)
  then have upd: "update time playerPos onGround cubePositions g = (Returned, g')"
    unfolding g'_eq by (cases "update time playerPos onGround cubePositions g") simp
  have lens: "length (playerTrail g') \<le> PLAYER_SLOTS g0" "length (cubeTrail g') \<le> CUBE_SLOTS g0"
    using caps cfg(1) by (simp_all add: caps_ok_def same_config_def)
  have ages: "(onGround \<and> time - lastSampleTime g > 0.1 \<longrightarrow>
            (\<forall>e\<in>set (playerTrail g'). time - entry_t e < HOLD_TIME g0 + FADE_TIME g0 + 0.2))
         \<and> (cubePositions \<noteq> None \<longrightarrow>
            (\<forall>e\<in>set (cubeTrail g'). time - entry_t e < HOLD_TIME g0 + FADE_TIME g0 + 0.2))"
    if "playerPos \<noteq> None"
  proof -
    from that obtain p where "playerPos = Some p" by auto
    with upd have "update time (Some p) onGround cubePositions g = (Returned, g')" by simp
    from update_ages [OF this] show ?thesis
      using cfg(2) by (simp add: same_config_def)
  qed
  show ?thesis
    using lens ages unfolding g'_def g_def g0_def by blast
qed


theorem capacity_invariant_witness:
  "list_all (\<lambda>out. out = Returned)
     (outcomes ([(1 / 5, Some ex_player, True, Some [ex_cube_a])]
                @ [(43 / 10, Some ex_player, True, Some [ex_cube_b])]) (setMaterial False))
   \<and> length (playerTrail (run ([(1 / 5, Some ex_player, True, Some [ex_cube_a])]
                @ [(43 / 10, Some ex_player, True, Some [ex_cube_b])]) (setMaterial False)))
         \<le> PLAYER_SLOTS (setMaterial False)
   \<and> length (cubeTrail (run ([(1 / 5, Some ex_player, True, Some [ex_cube_a])]
                @ [(43 / 10, Some ex_player, True, Some [ex_cube_b])]) (setMaterial False)))
         \<le> CUBE_SLOTS (setMaterial False)
   \<and> 43 / 10 - entry_t (hd (playerTrail (run ([(1 / 5, Some ex_player, True, Some [ex_cube_a])]
                @ [(43 / 10, Some ex_player, True, Some [ex_cube_b])]) (setMaterial False))))
         < HOLD_TIME (setMaterial False) + FADE_TIME (setMaterial False) + 0.2"
proof -
  define previous where "previous = [(1 / 5 :: real, Some ex_player, True, Some [ex_cube_a])]"
  define frames where
    "frames = previous @ [(43 / 10 :: real, Some ex_player, True, Some [ex_cube_b])]"
  have h: "list_all (\<lambda>out. out = Returned) (outcomes frames (setMaterial False))"
    unfolding frames_def previous_def by code_simp
  have gate: "43 / 10 - lastSampleTime (run previous (setMaterial False)) > 0.1"
    unfolding previous_def by code_simp
  have mem: "hd (playerTrail (run frames (setMaterial False)))
               \<in> set (playerTrail (run frames (setMaterial False)))"
    unfolding frames_def previous_def by code_simp
  note t = capacity_invariant [OF h [unfolded frames_def], folded frames_def]
  have "43 / 10 - entry_t (hd (playerTrail (run frames (setMaterial False))))
          < HOLD_TIME (setMaterial False) + FADE_TIME (setMaterial False) + 0.2"
    using t gate mem by blast
  then show ?thesis using h t unfolding frames_def previous_def by blast
qed

text \<open>
  C1 as stated fails on the ages: the filter keeps entries up to \<open>totalTime + 0.2\<close>, so
  the sample taken at 1/5 is still in the trail at time 43/10, at age 41/10, beyond
  \<open>HOLD_TIME + FADE_TIME = 4\<close>.
\<close>

theorem capacity_invariant_counterexample:
  "outcomes [(1 / 5, Some ex_player, True, None), (43 / 10, Some ex_player, True, None)]
       (setMaterial False) = [Returned, Returned]
   \<and> playerTrail (run [(1 / 5, Some ex_player, True, None), (43 / 10, Some ex_player, True, None)]
       (setMaterial False))
     = [\<lparr> entry_x = Num 1, entry_z = Num 2, entry_t = 1 / 5 \<rparr>,
        \<lparr> entry_x = Num 1, entry_z = Num 2, entry_t = 43 / 10 \<rparr>]
   \<and> HOLD_TIME (setMaterial False) + FADE_TIME (setMaterial False) = 4
   \<and> 43 / 10 - entry_t \<lparr> entry_x = Num 1, entry_z = Num 2, entry_t = 1 / 5 \<rparr> = 41 / 10"
  by code_simp

text \<open>
  C9 (as amended). In a frame with \<open>playerPos\<close> present, when the cube list is as long as
  the remembered list, \<open>update\<close> returns, and for each index, in order, a footprint is
  pushed onto the cube trail exactly when \<open>moved\<close> holds of the cube's position and the
  remembered one; the footprint holds the remembered position and \<open>t = time\<close>, the trail
  is then pruned, and the remembered position of each moved cube becomes its current one.
\<close>

theorem cube_movement_gate:
  assumes "cubeLastPos g = Some remembered" "length cubes = length remembered"
  shows "fst (update time (Some p) onGround (Some cubes) g) = Returned
     \<and> cubeTrail (snd (update time (Some p) onGround (Some cubes) g))
       = prune time (HOLD_TIME g + FADE_TIME g) (CUBE_SLOTS g)
           (cubeTrail g @ map (\<lambda>(cube, old). footprint time old)
                (filter (\<lambda>(cube, old). moved cube old) (zip cubes remembered)))
     \<and> cubeLastPos (snd (update time (Some p) onGround (Some cubes) g))
       = Some (map (\<lambda>(cube, old). if moved cube old then copy_pos cube else old)
                (zip cubes remembered))"
proof -
  define g0 where "g0 = g\<lparr> timeNode := time * 2 \<rparr>"
  define g1 where "g1 = record_player time p onGround g0"
  have f: "cubeLastPos g1 = Some remembered" "cubeTrail g1 = cubeTrail g"
    by (simp_all add: g1_def g0_def record_player_cube_fields assms(1))
  have c: "HOLD_TIME g1 = HOLD_TIME g" "FADE_TIME g1 = FADE_TIME g" "CUBE_SLOTS g1 = CUBE_SLOTS g"
    using record_player_config [of g0 time p onGround]
    by (simp_all add: same_config_def g1_def g0_def)
  define g2 where "g2 = g1\<lparr> cubeTrail := prune time (HOLD_TIME g + FADE_TIME g) (CUBE_SLOTS g)
           (cubeTrail g @ map (\<lambda>(cube, old). footprint time old)
                (filter (\<lambda>(cube, old). moved cube old) (zip cubes remembered))),
         cubeLastPos := Some (map (\<lambda>(cube, old). if moved cube old then copy_pos cube else old)
                (zip cubes remembered)) \<rparr>"
  have rc: "record_cubes time (Some cubes) g1 = (Returned, g2)"
    using record_cubes_gate [OF f(1) assms(2), of time] by (simp add: g2_def f c)
  have "update time (Some p) onGround (Some cubes) g = (Returned, upload time g2)"
    using update_Some_split [OF _ rc, of p onGround g] by (simp add: g1_def g0_def)
  moreover have "cubeTrail (upload time g2) = cubeTrail g2" by (simp add: upload_fields)
  moreover have "cubeLastPos (upload time g2) = cubeLastPos g2"
    using upload_shape [of time g2] by auto
  ultimately show ?thesis by (simp add: g2_def)
qed


theorem cube_movement_gate_witness:
  "cubeLastPos (run [(1 / 5, Some ex_player, True, Some [ex_cube_a])] (setMaterial False))
     = Some [ex_cube_a]
   \<and> length [ex_cube_b] = length [ex_cube_a]
   \<and> moved ex_cube_b ex_cube_a
   \<and> fst (update (1 / 2) (Some ex_player) True (Some [ex_cube_b])
        (run [(1 / 5, Some ex_player, True, Some [ex_cube_a])] (setMaterial False))) = Returned
   \<and> cubeTrail (snd (update (1 / 2) (Some ex_player) True (Some [ex_cube_b])
        (run [(1 / 5, Some ex_player, True, Some [ex_cube_a])] (setMaterial False))))
     = [footprint (1 / 2) ex_cube_a]
   \<and> cubeLastPos (snd (update (1 / 2) (Some ex_player) True (Some [ex_cube_b])
        (run [(1 / 5, Some ex_player, True, Some [ex_cube_a])] (setMaterial False))))
     = Some [copy_pos ex_cube_b]"
proof -
  define g where "g = run [(1 / 5 :: real, Some ex_player, True, Some [ex_cube_a])] (setMaterial False)"
  have h1: "cubeLastPos g = Some [ex_cube_a]" unfolding g_def by code_simp
  have h2: "length [ex_cube_b] = length [ex_cube_a]" by simp
  have m: "moved ex_cube_b ex_cube_a" by code_simp
  have v1: "prune (1 / 2) (HOLD_TIME g + FADE_TIME g) (CUBE_SLOTS g)
           (cubeTrail g @ map (\<lambda>(cube, old). footprint (1 / 2) old)
                (filter (\<lambda>(cube, old). moved cube old) (zip [ex_cube_b] [ex_cube_a])))
        = [footprint (1 / 2) ex_cube_a]"
    unfolding g_def by code_simp
  have v2: "map (\<lambda>(cube, old). if moved cube old then copy_pos cube else old)
                (zip [ex_cube_b] [ex_cube_a]) = [copy_pos ex_cube_b]"
    by code_simp
  note t = cube_movement_gate [OF h1 h2, of "1 / 2" ex_player True, unfolded v1 v2]
  show ?thesis using h1 h2 m t unfolding g_def by blast
qed

text \<open>
  C9 as stated fails in a frame without \<open>playerPos\<close>: the cube has moved by one unit from
  its remembered position, the list has kept its length, and nothing is pushed nor
  remembered.
\<close>

theorem cube_movement_gate_counterexample:
  "cubeLastPos (run [(1 / 5, Some ex_player, True, Some [ex_cube_a])] (setMaterial False))
     = Some [ex_cube_a]
   \<and> moved ex_cube_b ex_cube_a
   \<and> fst (update (1 / 2) None True (Some [ex_cube_b])
        (run [(1 / 5, Some ex_player, True, Some [ex_cube_a])] (setMaterial False))) = Returned
   \<and> cubeTrail (snd (update (1 / 2) None True (Some [ex_cube_b])
        (run [(1 / 5, Some ex_player, True, Some [ex_cube_a])] (setMaterial False)))) = []
   \<and> cubeLastPos (snd (update (1 / 2) None True (Some [ex_cube_b])
        (run [(1 / 5, Some ex_player, True, Some [ex_cube_a])] (setMaterial False))))
     = Some [ex_cube_a]"
  by code_simp



text \<open>
  C10. When \<open>playerPos\<close> is missing, \<open>update\<close> returns having set the time uniform only:
  trails, remembered cube positions, sample times and both packed arrays stay as they
  were, whatever the cube positions passed.
\<close>

theorem no_player_no_op:
  "update time None onGround cubePositions g = (Returned, g\<lparr> timeNode := time * 2.0 \<rparr>)"
  by (simp add: update_def)


text \<open>
  C8 (as amended). In a frame whose \<open>playerPos\<close> is missing, \<open>update\<close> returns and both
  trails are what they were: the sample is skipped.
\<close>

theorem missing_sample_skipped:
  "fst (update time None onGround cubePositions g) = Returned
   \<and> playerTrail (snd (update time None onGround cubePositions g)) = playerTrail g
   \<and> cubeTrail (snd (update time None onGround cubePositions g)) = cubeTrail g"
  by (simp add: update_def)


text \<open>
  C8 as stated fails for a sample with \<open>NaN\<close> coordinates: the object is truthy, and the
  entry is pushed with the \<open>NaN\<close>s in it.
\<close>

theorem nan_sample_recorded:
  "playerTrail (snd (update (1 / 5) (Some ex_nan) True None (setMaterial False)))
     = [\<lparr> entry_x = NaN, entry_z = NaN, entry_t = 1 / 5 \<rparr>]"
  by code_simp


text \<open>
  C7. The claim says \<open>update\<close> never raises an error. When the cube list is longer than
  the remembered list, reading \<open>last.x\<close> of an undefined \<open>last\<close> throws: here the list
  grows from one cube to two between the first frame and the second.
\<close>

theorem grown_list_throws:
  "outcomes [(1 / 5, Some ex_player, True, Some [ex_cube_a]),
             (1 / 2, Some ex_player, True, Some [ex_cube_a, ex_cube_b])] (setMaterial False)
     = [Returned, Threw TypeError]"
  by code_simp


end
